theory Spec2Isabelle
  imports Main "HOL-Library.AList"
begin

section \<open>Data model of server.js\<close>

text \<open>
  The server keeps four module-level stores: \<^verbatim>\<open>users\<close>, \<^verbatim>\<open>messages\<close>,
  \<^verbatim>\<open>typingUsers\<close> and \<^verbatim>\<open>rooms\<close>. The objects \<^verbatim>\<open>users\<close> and \<^verbatim>\<open>typingUsers\<close> are
  read back with \<^verbatim>\<open>Object.values\<close>, so their insertion order is kept: they are association
  lists (assigning to an existing key keeps its position, a new key goes to the end, which
  is what \<open>AList.update\<close> does). \<^verbatim>\<open>rooms\<close> is only indexed by name and swept as a whole, so it
  is a map. JavaScript sets are HOL sets.

  Socket ids are produced by the transport, never by a client; they are strings that are
  not property names of \<^verbatim>\<open>Object.prototype\<close>, so \<^verbatim>\<open>users[socket.id]\<close> is a plain lookup.
\<close>

type_synonym socket_id = string
type_synonym room_name = string

record user =
  username :: string
  user_id :: socket_id
  user_rooms :: "room_name set"

record room_entry =
  name :: room_name
  members :: "socket_id set"

record msg =
  message :: string
  msg_id :: int
  sender :: string
  senderId :: socket_id
  timestamp :: string
  room :: room_name
  deliveredTo :: "socket_id set"
  readBy :: "socket_id set"

text \<open>The payload of \<^verbatim>\<open>receive_message\<close>: the message with \<^verbatim>\<open>deliveredTo\<close> and
  \<^verbatim>\<open>readBy\<close> set to \<^verbatim>\<open>undefined\<close>.\<close>

record wire_msg =
  w_message :: string
  w_id :: int
  w_sender :: string
  w_senderId :: socket_id
  w_timestamp :: string
  w_room :: room_name

record private_msg =
  p_id :: int
  p_sender :: string
  p_senderId :: socket_id
  p_message :: string
  p_timestamp :: string

text \<open>Inbound payloads. \<^verbatim>\<open>messageData.room\<close> may be absent.\<close>

record message_data =
  md_message :: string
  md_room :: "room_name option"

record pm_payload =
  pm_to :: socket_id
  pm_message :: string

text \<open>
  The state also holds what Socket.IO keeps for the server: the connected sockets of the
  namespace and the adapter's rooms, which \<^verbatim>\<open>socket.join\<close> and \<^verbatim>\<open>socket.leave\<close> change and
  \<^verbatim>\<open>io.to(r).emit\<close> reads. They are distinct from the \<^verbatim>\<open>rooms\<close> object of server.js.
\<close>

record state =
  users :: "(socket_id \<times> user) list"
  messages :: "msg list"
  typingUsers :: "(socket_id \<times> string) list"
  rooms :: "room_name \<rightharpoonup> room_entry"
  sockets :: "socket_id set"
  adapter :: "room_name \<Rightarrow> socket_id set"

text \<open>An uncaught exception of a handler.\<close>

datatype error = TypeError

text \<open>Where an emit goes, and what is emitted.\<close>

datatype target =
    Everyone
  | InRoom room_name
  | InRoomExcept room_name socket_id
  | Self socket_id
  | AckTo socket_id

datatype outbound =
    UserList "user list"
  | UserJoined string socket_id
  | UserLeft string socket_id
  | ReceiveMessage wire_msg
  | TypingUsers "string list"
  | RoomNotification room_name string string
  | PrivateMessage private_msg
  | MessageRead int socket_id "string option"
  | Ack int

type_synonym emission = "target \<times> outbound"

text \<open>\<^verbatim>\<open>const rooms = { global: { name: 'global', members: new Set() } }\<close>; the other stores
  start empty.\<close>

definition initial :: state where
  "initial =
     \<lparr>users = [], messages = [], typingUsers = [],
      rooms = [''global'' \<mapsto> \<lparr>name = ''global'', members = {}\<rparr>],
      sockets = {}, adapter = (\<lambda>r. {})\<rparr>"

section \<open>The transport\<close>

text \<open>
  Socket.IO puts every socket into a room named by its own id when it connects (the
  handlers rely on it: \<^verbatim>\<open>io.to(msg.senderId)\<close>, \<^verbatim>\<open>socket.to(to)\<close>), and takes a socket out of
  all its rooms before the \<^verbatim>\<open>disconnect\<close> listener runs.
\<close>

definition socket_join :: "socket_id \<Rightarrow> room_name \<Rightarrow> (room_name \<Rightarrow> socket_id set) \<Rightarrow> (room_name \<Rightarrow> socket_id set)" where
  "socket_join sid r ad = ad(r := insert sid (ad r))"

definition socket_leave :: "socket_id \<Rightarrow> room_name \<Rightarrow> (room_name \<Rightarrow> socket_id set) \<Rightarrow> (room_name \<Rightarrow> socket_id set)" where
  "socket_leave sid r ad = ad(r := ad r - {sid})"

definition socket_open :: "socket_id \<Rightarrow> state \<Rightarrow> state" where
  "socket_open sid s =
     s\<lparr>sockets := insert sid (sockets s), adapter := socket_join sid sid (adapter s)\<rparr>"

definition socket_close :: "socket_id \<Rightarrow> state \<Rightarrow> state" where
  "socket_close sid s =
     s\<lparr>sockets := sockets s - {sid}, adapter := (\<lambda>r. adapter s r - {sid})\<rparr>"

text \<open>The sockets an emit reaches, in a given state.\<close>

fun recipients :: "state \<Rightarrow> target \<Rightarrow> socket_id set" where
  "recipients s Everyone = sockets s"
| "recipients s (InRoom r) = adapter s r"
| "recipients s (InRoomExcept r sid) = adapter s r - {sid}"
| "recipients s (Self sid) = {sid}"
| "recipients s (AckTo sid) = {sid}"

section \<open>Property lookup on the rooms object\<close>

text \<open>
  \<^verbatim>\<open>rooms\<close> is an object literal, so \<^verbatim>\<open>rooms[roomName]\<close> also finds the properties it
  inherits from \<^verbatim>\<open>Object.prototype\<close>. Those values are functions (or, for \<^verbatim>\<open>__proto__\<close>, the
  prototype itself): truthy, and without a \<^verbatim>\<open>members\<close> property.
\<close>

definition object_prototype_keys :: "string list" where
  "object_prototype_keys =
     [''constructor'', ''__defineGetter__'', ''__defineSetter__'', ''hasOwnProperty'',
      ''__lookupGetter__'', ''__lookupSetter__'', ''isPrototypeOf'', ''propertyIsEnumerable'',
      ''toString'', ''valueOf'', ''__proto__'', ''toLocaleString'']"

datatype js_prop = Own room_entry | Inherited | Undefined

definition rooms_get :: "(room_name \<rightharpoonup> room_entry) \<Rightarrow> room_name \<Rightarrow> js_prop" where
  "rooms_get rs n =
     (case rs n of
        Some r \<Rightarrow> Own r
      | None \<Rightarrow> if n \<in> set object_prototype_keys then Inherited else Undefined)"

section \<open>The handlers\<close>

text \<open>\<^verbatim>\<open>users[socket.id]?.username || fallback\<close>: the fallback also replaces an empty name.\<close>

definition username_or :: "string \<Rightarrow> state \<Rightarrow> socket_id \<Rightarrow> string" where
  "username_or fallback s sid =
     (case map_of (users s) sid of
        None \<Rightarrow> fallback
      | Some u \<Rightarrow> if username u = [] then fallback else username u)"

text \<open>\<^verbatim>\<open>user_join\<close> (lines 40-47).\<close>

definition user_join :: "socket_id \<Rightarrow> string \<Rightarrow> state \<Rightarrow> error + state \<times> emission list" where
  "user_join sid uname s =
     (let us = AList.update sid \<lparr>username = uname, user_id = sid, user_rooms = {''global''}\<rparr> (users s);
          ad = socket_join sid ''global'' (adapter s)
      in case rooms s ''global'' of
           None \<Rightarrow> Inl TypeError
         | Some g \<Rightarrow>
             Inr (s\<lparr>users := us,
                    rooms := (rooms s)(''global'' \<mapsto> g\<lparr>members := insert sid (members g)\<rparr>),
                    adapter := ad\<rparr>,
                  [(Everyone, UserList (map snd us)), (Everyone, UserJoined uname sid)]))"

text \<open>\<^verbatim>\<open>send_message\<close> (lines 50-85). \<open>now\<close> is what \<^verbatim>\<open>Date.now()\<close> returns and \<open>stamp\<close> what
  \<^verbatim>\<open>new Date().toISOString()\<close> returns when the handler runs; \<open>has_ack\<close> says whether the
  client passed an acknowledgement callback.\<close>

definition new_message :: "socket_id \<Rightarrow> message_data \<Rightarrow> int \<Rightarrow> string \<Rightarrow> state \<Rightarrow> msg" where
  "new_message sid md now stamp s =
     \<lparr>message = md_message md,
      msg_id = now,
      sender = username_or ''Anonymous'' s sid,
      senderId = sid,
      timestamp = stamp,
      room = (case md_room md of None \<Rightarrow> ''global'' | Some r \<Rightarrow> if r = [] then ''global'' else r),
      deliveredTo = {},
      readBy = {}\<rparr>"

definition payload_of :: "msg \<Rightarrow> wire_msg" where
  "payload_of m =
     \<lparr>w_message = message m, w_id = msg_id m, w_sender = sender m, w_senderId = senderId m,
      w_timestamp = timestamp m, w_room = room m\<rparr>"

definition push_bounded :: "msg list \<Rightarrow> msg \<Rightarrow> msg list" where
  "push_bounded ms m = (let pushed = ms @ [m] in if length pushed > 100 then tl pushed else pushed)"

definition message_target :: "state \<Rightarrow> msg \<Rightarrow> target" where
  "message_target s m =
     (if room m \<noteq> [] \<and> rooms_get (rooms s) (room m) \<noteq> Undefined then InRoom (room m) else Everyone)"

definition send_message ::
  "socket_id \<Rightarrow> message_data \<Rightarrow> bool \<Rightarrow> int \<Rightarrow> string \<Rightarrow> state \<Rightarrow> state \<times> emission list" where
  "send_message sid md has_ack now stamp s =
     (let m = new_message sid md now stamp s
      in (s\<lparr>messages := push_bounded (messages s) m\<rparr>,
          (if has_ack then [(AckTo sid, Ack (msg_id m))] else [])
            @ [(message_target s m, ReceiveMessage (payload_of m))]))"

text \<open>\<^verbatim>\<open>typing\<close> (lines 88-100).\<close>

definition typing :: "socket_id \<Rightarrow> bool \<Rightarrow> state \<Rightarrow> state \<times> emission list" where
  "typing sid isTyping s =
     (case map_of (users s) sid of
        None \<Rightarrow> (s, [])
      | Some u \<Rightarrow>
          (let ty = (if isTyping then AList.update sid (username u) (typingUsers s)
                     else AList.delete sid (typingUsers s))
           in (s\<lparr>typingUsers := ty\<rparr>, [(Everyone, TypingUsers (map snd ty))])))"

text \<open>\<^verbatim>\<open>join_room\<close> (lines 103-116). After the optional creation, \<^verbatim>\<open>rooms[roomName]\<close> has
  no own entry exactly when the name is inherited from the prototype; then
  \<^verbatim>\<open>.members.add\<close> throws.\<close>

definition join_room :: "socket_id \<Rightarrow> room_name \<Rightarrow> string \<Rightarrow> state \<Rightarrow> error + state \<times> emission list" where
  "join_room sid roomName stamp s =
     (if roomName = [] then Inr (s, [])
      else
        (let rs = (if rooms_get (rooms s) roomName = Undefined
                   then (rooms s)(roomName \<mapsto> \<lparr>name = roomName, members = {}\<rparr>)
                   else rooms s);
             ad = socket_join sid roomName (adapter s)
         in case rs roomName of
              None \<Rightarrow> Inl TypeError
            | Some r \<Rightarrow>
                (let us = (case map_of (users s) sid of
                             None \<Rightarrow> users s
                           | Some u \<Rightarrow>
                               AList.update sid (u\<lparr>user_rooms := insert roomName (user_rooms u)\<rparr>) (users s));
                     s' = s\<lparr>users := us,
                            rooms := rs(roomName \<mapsto> r\<lparr>members := insert sid (members r)\<rparr>),
                            adapter := ad\<rparr>
                 in Inr (s', [(InRoom roomName,
                               RoomNotification roomName
                                 (username_or ''User'' s' sid @ '' joined '' @ roomName) stamp)]))))"

text \<open>\<^verbatim>\<open>leave_room\<close> (lines 119-129).\<close>

definition leave_room :: "socket_id \<Rightarrow> room_name \<Rightarrow> string \<Rightarrow> state \<Rightarrow> error + state \<times> emission list" where
  "leave_room sid roomName stamp s =
     (if roomName = [] \<or> rooms_get (rooms s) roomName = Undefined then Inr (s, [])
      else
        (case rooms s roomName of
           None \<Rightarrow> Inl TypeError
         | Some r \<Rightarrow>
             (let us = (case map_of (users s) sid of
                          None \<Rightarrow> users s
                        | Some u \<Rightarrow>
                            AList.update sid (u\<lparr>user_rooms := user_rooms u - {roomName}\<rparr>) (users s));
                  s' = s\<lparr>users := us,
                         rooms := (rooms s)(roomName \<mapsto> r\<lparr>members := members r - {sid}\<rparr>),
                         adapter := socket_leave sid roomName (adapter s)\<rparr>
              in Inr (s', [(InRoom roomName,
                            RoomNotification roomName
                              (username_or ''User'' s' sid @ '' left '' @ roomName) stamp)]))))"

text \<open>\<^verbatim>\<open>private_message\<close> (lines 132-147). The parameter is destructured, which throws when
  the client sent no payload.\<close>

definition private_message ::
  "socket_id \<Rightarrow> pm_payload option \<Rightarrow> bool \<Rightarrow> int \<Rightarrow> string \<Rightarrow> state \<Rightarrow> error + state \<times> emission list" where
  "private_message sid payload has_ack now stamp s =
     (case payload of
        None \<Rightarrow> Inl TypeError
      | Some p \<Rightarrow>
          (let messageData =
                 \<lparr>p_id = now, p_sender = username_or ''Anonymous'' s sid, p_senderId = sid,
                  p_message = pm_message p, p_timestamp = stamp\<rparr>
           in Inr (s, [(InRoomExcept (pm_to p) sid, PrivateMessage messageData),
                       (Self sid, PrivateMessage messageData)]
                      @ (if has_ack then [(AckTo sid, Ack now)] else []))))"

text \<open>\<^verbatim>\<open>message_read\<close> (lines 150-159). \<^verbatim>\<open>messages.find\<close> returns the first message with the
  id, and \<^verbatim>\<open>readBy.add\<close> changes that message in the log.\<close>

fun mark_read :: "int \<Rightarrow> socket_id \<Rightarrow> msg list \<Rightarrow> msg list" where
  "mark_read messageId sid [] = []"
| "mark_read messageId sid (m # ms) =
     (if msg_id m = messageId then m\<lparr>readBy := insert sid (readBy m)\<rparr> # ms
      else m # mark_read messageId sid ms)"

definition message_read :: "socket_id \<Rightarrow> int option \<Rightarrow> state \<Rightarrow> error + state \<times> emission list" where
  "message_read sid payload s =
     (case payload of
        None \<Rightarrow> Inl TypeError
      | Some messageId \<Rightarrow>
          (case find (\<lambda>m. msg_id m = messageId) (messages s) of
             None \<Rightarrow> Inr (s, [])
           | Some m \<Rightarrow>
               Inr (s\<lparr>messages := mark_read messageId sid (messages s)\<rparr>,
                    [(InRoom (senderId m),
                      MessageRead messageId sid (map_option username (map_of (users s) sid)))])))"

text \<open>\<^verbatim>\<open>disconnect\<close> (lines 162-177).\<close>

definition disconnect :: "socket_id \<Rightarrow> state \<Rightarrow> state \<times> emission list" where
  "disconnect sid s =
     (let left = (case map_of (users s) sid of
                    None \<Rightarrow> []
                  | Some u \<Rightarrow> [(Everyone, UserLeft (username u) sid)]);
          rs = (\<lambda>n. map_option (\<lambda>r. r\<lparr>members := members r - {sid}\<rparr>) (rooms s n));
          cleared = (case map_of (users s) sid of
                       None \<Rightarrow> users s
                     | Some u \<Rightarrow> AList.update sid (u\<lparr>user_rooms := {}\<rparr>) (users s));
          us = AList.delete sid cleared;
          ty = AList.delete sid (typingUsers s)
      in (s\<lparr>users := us, typingUsers := ty, rooms := rs\<rparr>,
          left @ [(Everyone, UserList (map snd us)), (Everyone, TypingUsers (map snd ty))]))"

section \<open>Events and runs\<close>

datatype event =
    Ev_connection socket_id
  | Ev_user_join socket_id string
  | Ev_send_message socket_id message_data bool int string
  | Ev_typing socket_id bool
  | Ev_join_room socket_id room_name string
  | Ev_leave_room socket_id room_name string
  | Ev_private_message socket_id "pm_payload option" bool int string
  | Ev_message_read socket_id "int option"
  | Ev_disconnect socket_id

fun step :: "event \<Rightarrow> state \<Rightarrow> error + state \<times> emission list" where
  "step (Ev_connection sid) s = Inr (socket_open sid s, [])"
| "step (Ev_user_join sid uname) s = user_join sid uname s"
| "step (Ev_send_message sid md has_ack now stamp) s = Inr (send_message sid md has_ack now stamp s)"
| "step (Ev_typing sid isTyping) s = Inr (typing sid isTyping s)"
| "step (Ev_join_room sid roomName stamp) s = join_room sid roomName stamp s"
| "step (Ev_leave_room sid roomName stamp) s = leave_room sid roomName stamp s"
| "step (Ev_private_message sid payload has_ack now stamp) s = private_message sid payload has_ack now stamp s"
| "step (Ev_message_read sid payload) s = message_read sid payload s"
| "step (Ev_disconnect sid) s = Inr (disconnect sid (socket_close sid s))"

text \<open>A run handles the events one after the other; an uncaught exception ends it.\<close>

fun run :: "event list \<Rightarrow> state \<Rightarrow> error + state" where
  "run [] s = Inr s"
| "run (e # es) s = (case step e s of Inl err \<Rightarrow> Inl err | Inr (s', out) \<Rightarrow> run es s')"

section \<open>Observations\<close>

text \<open>Whether a socket is in \<^verbatim>\<open>rooms[r].members\<close>, and whether \<^verbatim>\<open>r\<close> is in the socket's cached
  \<^verbatim>\<open>users[sid].rooms\<close>.\<close>

definition is_member :: "state \<Rightarrow> socket_id \<Rightarrow> room_name \<Rightarrow> bool" where
  "is_member s sid r = (case rooms s r of None \<Rightarrow> False | Some e \<Rightarrow> sid \<in> members e)"

definition has_joined :: "state \<Rightarrow> socket_id \<Rightarrow> room_name \<Rightarrow> bool" where
  "has_joined s sid r = (case map_of (users s) sid of None \<Rightarrow> False | Some u \<Rightarrow> r \<in> user_rooms u)"

text \<open>The sockets that a handler's \<^verbatim>\<open>receive_message\<close> emits reach.\<close>

definition message_receivers :: "state \<Rightarrow> emission list \<Rightarrow> socket_id set" where
  "message_receivers s out =
     (\<Union>(t, p) \<in> set out. case p of ReceiveMessage w \<Rightarrow> recipients s t | _ \<Rightarrow> {})"

text \<open>The adapter's rooms follow the members of \<^verbatim>\<open>rooms\<close>, up to the room that every
  connected socket has under its own id.\<close>

definition adapter_tracks :: "state \<Rightarrow> bool" where
  "adapter_tracks s =
     (\<forall>r c. (is_member s c r \<longrightarrow> c \<in> adapter s r) \<and>
            (c \<in> adapter s r \<longrightarrow> is_member s c r \<or> (c = r \<and> r \<in> sockets s)))"

text \<open>The ASCII characters that count as whitespace in a string.\<close>

definition whitespace_chars :: "char list" where
  "whitespace_chars = [CHR '' '', CHR 0x09, CHR 0x0A, CHR 0x0B, CHR 0x0C, CHR 0x0D]"





section \<open>Example states\<close>

text \<open>One connected socket that never sent \<^verbatim>\<open>user_join\<close>.\<close>

definition one_socket :: state where
  "one_socket = socket_open ''s1'' initial"

text \<open>The same, after one message with id 5.\<close>

definition one_message :: state where
  "one_message =
     fst (send_message ''s1'' \<lparr>md_message = ''hi'', md_room = None\<rparr> False 5 ''t'' one_socket)"

text \<open>A hundred sends, which fill the log.\<close>

definition hundred_sends :: "event list" where
  "hundred_sends =
     replicate 100 (Ev_send_message ''s1'' \<lparr>md_message = ''hi'', md_room = None\<rparr> False 7 ''t'')"

text \<open>A registered user who joined a second room and is typing, once the transport has
  closed the socket.\<close>

definition alice_typing :: state where
  "alice_typing =
     \<lparr>users = [(''s1'', \<lparr>username = ''alice'', user_id = ''s1'', user_rooms = {''global'', ''dev''}\<rparr>)],
      messages = [],
      typingUsers = [(''s1'', ''alice'')],
      rooms = [''global'' \<mapsto> \<lparr>name = ''global'', members = {''s1''}\<rparr>,
               ''dev'' \<mapsto> \<lparr>name = ''dev'', members = {''s1''}\<rparr>],
      sockets = {}, adapter = (\<lambda>r. {})\<rparr>"

text \<open>Two sockets, one of them registered as alice.\<close>

definition alice_online :: state where
  "alice_online =
     \<lparr>users = [(''s1'', \<lparr>username = ''alice'', user_id = ''s1'', user_rooms = {''global''}\<rparr>)],
      messages = [], typingUsers = [],
      rooms = [''global'' \<mapsto> \<lparr>name = ''global'', members = {''s1''}\<rparr>],
      sockets = {''s2'', ''s1''},
      adapter = ((\<lambda>r. {})(''s1'' := {''s1''}, ''s2'' := {''s2''}, ''global'' := {''s1''}))\<rparr>"

text \<open>The same, after alice sent one message.\<close>

definition alice_spoke :: state where
  "alice_spoke =
     fst (send_message ''s1'' \<lparr>md_message = ''hello'', md_room = None\<rparr> False 3 ''t'' alice_online)"

text \<open>A registered user who joined \<^verbatim>\<open>dev\<close> and left \<^verbatim>\<open>global\<close>.\<close>

definition alice_in_dev :: state where
  "alice_in_dev =
     \<lparr>users = [(''s1'', \<lparr>username = ''alice'', user_id = ''s1'', user_rooms = {''dev''}\<rparr>)],
      messages = [], typingUsers = [],
      rooms = [''global'' \<mapsto> \<lparr>name = ''global'', members = {}\<rparr>,
               ''dev'' \<mapsto> \<lparr>name = ''dev'', members = {''s1''}\<rparr>],
      sockets = {''s1''},
      adapter = ((\<lambda>r. {})(''s1'' := {''s1''}, ''global'' := {}, ''dev'' := {''s1''}))\<rparr>"

definition alice_joins_dev :: "event list" where
  "alice_joins_dev =
     [Ev_connection ''s1'', Ev_user_join ''s1'' ''alice'', Ev_join_room ''s1'' ''dev'' ''t'',
      Ev_leave_room ''s1'' ''global'' ''t'']"

section \<open>The message log\<close>

lemma push_bounded_eq:
  "push_bounded ms m = (if 100 \<le> length ms then tl ms @ [m] else ms @ [m])"
  by (cases ms) (auto simp: push_bounded_def Let_def)

lemma last_push_bounded: "last (push_bounded ms m) = m"
  by (simp add: push_bounded_eq)

lemma length_push_bounded: "length ms \<le> 100 \<Longrightarrow> length (push_bounded ms m) \<le> 100"
  by (simp add: push_bounded_eq)

lemma length_mark_read: "length (mark_read i sid ms) = length ms"
  by (induction ms) auto

lemma messages_socket_open: "messages (socket_open sid s) = messages s"
  by (simp add: socket_open_def)

lemma messages_socket_close: "messages (socket_close sid s) = messages s"
  by (simp add: socket_close_def)

lemma step_log_bounded:
  assumes "length (messages s) \<le> 100" and "step e s = Inr (s', out)"
  shows "length (messages s') \<le> 100"
proof (cases e)
  case (Ev_send_message sid md has_ack now stamp)
  with assms show ?thesis
    by (auto simp: send_message_def Let_def length_push_bounded)
next
  case (Ev_message_read sid payload)
  with assms show ?thesis
    by (auto simp: message_read_def length_mark_read split: option.splits)
next
  case (Ev_user_join sid uname)
  with assms show ?thesis
    by (auto simp: user_join_def Let_def split: option.splits)
next
  case (Ev_join_room sid roomName stamp)
  with assms show ?thesis
    by (auto simp: join_room_def Let_def split: option.splits if_splits)
next
  case (Ev_leave_room sid roomName stamp)
  with assms show ?thesis
    by (auto simp: leave_room_def Let_def split: option.splits if_splits)
next
  case (Ev_private_message sid payload has_ack now stamp)
  with assms show ?thesis
    by (auto simp: private_message_def Let_def split: option.splits)
next
  case (Ev_typing sid isTyping)
  with assms show ?thesis
    by (auto simp: typing_def Let_def split: option.splits)
next
  case (Ev_disconnect sid)
  with assms show ?thesis
    by (auto simp: disconnect_def Let_def messages_socket_close)
next
  case (Ev_connection sid)
  with assms show ?thesis
    by (auto simp: messages_socket_open)
qed

lemma run_log_bounded:
  "length (messages s) \<le> 100 \<Longrightarrow> run evs s = Inr t \<Longrightarrow> length (messages t) \<le> 100"
proof (induction evs arbitrary: s)
  case Nil
  then show ?case by simp
next
  case (Cons e es)
  then show ?case
    by (auto split: sum.splits dest: step_log_bounded)
qed

text \<open>
  C2. In every state the server reaches, the log holds at most 100 messages, also after a
  further \<^verbatim>\<open>send_message\<close>; that send appends the new message at the end and, when the log
  already held 100, drops exactly the first (oldest) one, the others keeping their order.
\<close>

theorem message_log_bounded_fifo:
  assumes "run evs initial = Inr s"
  shows "length (messages s) \<le> 100 \<and>
         length (messages (fst (send_message sid md has_ack now stamp s))) \<le> 100 \<and>
         messages (fst (send_message sid md has_ack now stamp s)) =
           (if length (messages s) = 100 then tl (messages s) else messages s)
             @ [new_message sid md now stamp s]"
proof -
  have b: "length (messages s) \<le> 100"
    using run_log_bounded [OF _ assms] by (simp add: initial_def)
  then show ?thesis
    by (auto simp: send_message_def Let_def push_bounded_eq)
qed

lemma run_replicate_send:
  assumes "k + n \<le> 100" and "m0 = new_message sid md now stamp initial"
  shows "run (replicate n (Ev_send_message sid md False now stamp)) (initial\<lparr>messages := replicate k m0\<rparr>)
         = Inr (initial\<lparr>messages := replicate (k + n) m0\<rparr>)"
  using assms
proof (induction n arbitrary: k)
  case 0
  then show ?case by simp
next
  case (Suc n)
  let ?s = "initial\<lparr>messages := replicate k m0\<rparr>"
  have m: "new_message sid md now stamp ?s = m0"
    using Suc.prems by (simp add: new_message_def username_or_def initial_def)
  have "push_bounded (replicate k m0) m0 = replicate (Suc k) m0"
    using Suc.prems by (simp add: push_bounded_eq replicate_append_same)
  then have st: "send_message sid md False now stamp ?s
                 = (initial\<lparr>messages := replicate (Suc k) m0\<rparr>,
                    [(message_target ?s m0, ReceiveMessage (payload_of m0))])"
    using m by (simp add: send_message_def Let_def)
  have "run (replicate n (Ev_send_message sid md False now stamp))
          (initial\<lparr>messages := replicate (Suc k) m0\<rparr>)
        = Inr (initial\<lparr>messages := replicate (Suc k + n) m0\<rparr>)"
    using Suc.IH [of "Suc k"] Suc.prems by simp
  then show ?case
    using st by simp
qed

theorem message_log_bounded_fifo_witness:
  "run hundred_sends initial
     = Inr (initial\<lparr>messages := replicate 100 (new_message ''s1'' \<lparr>md_message = ''hi'', md_room = None\<rparr> 7 ''t'' initial)\<rparr>) \<and>
   length (messages (fst (send_message ''s2'' \<lparr>md_message = ''yo'', md_room = None\<rparr> True 8 ''u''
      (initial\<lparr>messages := replicate 100 (new_message ''s1'' \<lparr>md_message = ''hi'', md_room = None\<rparr> 7 ''t'' initial)\<rparr>)))) = 100 \<and>
   messages (fst (send_message ''s2'' \<lparr>md_message = ''yo'', md_room = None\<rparr> True 8 ''u''
      (initial\<lparr>messages := replicate 100 (new_message ''s1'' \<lparr>md_message = ''hi'', md_room = None\<rparr> 7 ''t'' initial)\<rparr>)))
     = replicate 99 (new_message ''s1'' \<lparr>md_message = ''hi'', md_room = None\<rparr> 7 ''t'' initial)
         @ [new_message ''s2'' \<lparr>md_message = ''yo'', md_room = None\<rparr> 8 ''u'' initial]"
proof -
  let ?m0 = "new_message ''s1'' \<lparr>md_message = ''hi'', md_room = None\<rparr> 7 ''t'' initial"
  let ?s = "initial\<lparr>messages := replicate 100 ?m0\<rparr>"
  have r: "run hundred_sends initial = Inr ?s"
    using run_replicate_send [of 0 100 ?m0 "''s1''" "\<lparr>md_message = ''hi'', md_room = None\<rparr>" 7 "''t''"]
    by (simp add: hundred_sends_def initial_def)
  have t: "tl (replicate 100 ?m0) = replicate 99 ?m0"
    by simp
  have n: "new_message ''s2'' \<lparr>md_message = ''yo'', md_room = None\<rparr> 8 ''u'' ?s
           = new_message ''s2'' \<lparr>md_message = ''yo'', md_room = None\<rparr> 8 ''u'' initial"
    by (simp add: new_message_def username_or_def)
  show ?thesis
    using r t n
      message_log_bounded_fifo [OF r, of "''s2''" "\<lparr>md_message = ''yo'', md_room = None\<rparr>" True 8 "''u''"]
    by simp
qed

text \<open>
  C1. Two sends handled while \<^verbatim>\<open>Date.now()\<close> returns the same millisecond (here 1000) get the
  same id: the log then holds two messages with id 1000.
\<close>

theorem same_millisecond_same_id:
  "map msg_id (messages (fst (send_message ''s2'' \<lparr>md_message = ''b'', md_room = None\<rparr> False 1000 ''t''
      (fst (send_message ''s1'' \<lparr>md_message = ''a'', md_room = None\<rparr> False 1000 ''t'' initial)))))
   = [1000, 1000]"
  by (simp add: send_message_def new_message_def push_bounded_def Let_def initial_def)

section \<open>Read receipts\<close>

text \<open>
  C6. A \<^verbatim>\<open>message_read\<close> whose \<^verbatim>\<open>messageId\<close> is the id of no message in the log returns
  without an exception, leaves the whole state as it was and emits nothing.
\<close>

theorem message_read_unknown_noop:
  assumes "messageId \<notin> msg_id ` set (messages s)"
  shows "message_read sid (Some messageId) s = Inr (s, [])"
proof -
  have "find (\<lambda>m. msg_id m = messageId) (messages s) = None"
    using assms by (auto simp: find_None_iff)
  then show ?thesis by (simp add: message_read_def)
qed

theorem message_read_unknown_noop_witness:
  "6 \<notin> msg_id ` set (messages one_message) \<and>
   message_read ''s2'' (Some 6) one_message = Inr (one_message, [])"
proof -
  have h: "6 \<notin> msg_id ` set (messages one_message)"
    by (simp add: one_message_def one_socket_def socket_open_def initial_def send_message_def
        new_message_def push_bounded_def Let_def)
  show ?thesis using h message_read_unknown_noop [OF h, of "''s2''"] by simp
qed

section \<open>Typing\<close>

text \<open>
  C9. A \<^verbatim>\<open>typing\<close> event from a socket without an entry in \<^verbatim>\<open>users\<close> changes nothing
  (in particular not \<^verbatim>\<open>typingUsers\<close>) and emits nothing.
\<close>

theorem typing_unregistered_ignored:
  assumes "map_of (users s) sid = None"
  shows "typing sid isTyping s = (s, [])"
  using assms by (simp add: typing_def)

theorem typing_unregistered_ignored_witness:
  "map_of (users one_socket) ''s1'' = None \<and> typing ''s1'' True one_socket = (one_socket, [])"
proof -
  have h: "map_of (users one_socket) ''s1'' = None"
    by (simp add: one_socket_def socket_open_def initial_def)
  show ?thesis using h typing_unregistered_ignored [OF h, of True] by simp
qed

section \<open>Rooms\<close>

text \<open>
  C7, as stated, fails for a name made of whitespace only: \<^verbatim>\<open>!roomName\<close> is false for the
  string of one space, so the room is created, the socket becomes its member and the
  notification is emitted.
\<close>

theorem join_room_blank_name_counterexample:
  "(case join_room ''s1'' '' '' ''t'' one_socket of
      Inl err \<Rightarrow> False
    | Inr (s', out) \<Rightarrow>
        rooms one_socket '' '' = None \<and>
        rooms s' '' '' = Some \<lparr>name = '' '', members = {''s1''}\<rparr> \<and>
        out = [(InRoom '' '', RoomNotification '' '' ''User joined  '' ''t'')])"
  by (simp add: join_room_def rooms_get_def object_prototype_keys_def Let_def one_socket_def
      socket_open_def initial_def username_or_def)

lemma whitespace_not_inherited:
  assumes "roomName \<noteq> []" and "set roomName \<subseteq> set whitespace_chars"
  shows "roomName \<notin> set object_prototype_keys"
proof
  assume "roomName \<in> set object_prototype_keys"
  then have "hd roomName \<in> {CHR ''c'', CHR ''_'', CHR ''h'', CHR ''i'', CHR ''p'', CHR ''t'', CHR ''v''}"
    by (auto simp: object_prototype_keys_def)
  moreover have "hd roomName \<in> set whitespace_chars"
    using assms by (cases roomName) auto
  ultimately show False
    by (auto simp: whitespace_chars_def)
qed

lemma join_room_carried_out:
  assumes "roomName \<noteq> []" and "rooms_get (rooms s) roomName \<noteq> Inherited"
  shows "join_room sid roomName stamp s =
           Inr (s\<lparr>users := (case map_of (users s) sid of
                              None \<Rightarrow> users s
                            | Some u \<Rightarrow> AList.update sid (u\<lparr>user_rooms := insert roomName (user_rooms u)\<rparr>) (users s)),
                   rooms := (rooms s)(roomName \<mapsto>
                              (case rooms s roomName of
                                 None \<Rightarrow> \<lparr>name = roomName, members = {sid}\<rparr>
                               | Some r \<Rightarrow> r\<lparr>members := insert sid (members r)\<rparr>)),
                   adapter := (adapter s)(roomName := insert sid (adapter s roomName))\<rparr>,
                [(InRoom roomName,
                  RoomNotification roomName (username_or ''User'' s sid @ '' joined '' @ roomName) stamp)])"
proof (cases "rooms s roomName")
  case None
  then have u: "rooms_get (rooms s) roomName = Undefined"
    using assms(2) by (simp add: rooms_get_def split: if_splits)
  have n: "username_or ''User'' (s\<lparr>users := us, rooms := rs, adapter := ad\<rparr>) sid
           = (case map_of us sid of None \<Rightarrow> ''User'' | Some u \<Rightarrow> if username u = [] then ''User'' else username u)"
    for us rs ad
    by (simp add: username_or_def)
  show ?thesis
    using assms(1) None u
    by (cases "map_of (users s) sid")
       (simp_all add: join_room_def Let_def socket_join_def n username_or_def update_conv')
next
  case (Some r)
  then have u: "rooms_get (rooms s) roomName \<noteq> Undefined"
    by (simp add: rooms_get_def)
  have n: "username_or ''User'' (s\<lparr>users := us, rooms := rs, adapter := ad\<rparr>) sid
           = (case map_of us sid of None \<Rightarrow> ''User'' | Some u \<Rightarrow> if username u = [] then ''User'' else username u)"
    for us rs ad
    by (simp add: username_or_def)
  show ?thesis
    using assms(1) Some u
    by (cases "map_of (users s) sid")
       (simp_all add: join_room_def Let_def socket_join_def n username_or_def update_conv')
qed

text \<open>
  C7, amended. A \<^verbatim>\<open>join_room\<close> with the empty name returns at once: the state is unchanged
  (no room, no membership), nothing is emitted, and no error is raised or reported. A
  \<^verbatim>\<open>join_room\<close> with a name made of whitespace only is carried out like any other join: it
  does not fail, the room is created if it has no entry, the socket is added to its members
  (and to the Socket.IO room and, when registered, to its cached rooms), and the
  notification is emitted to the room.
\<close>

theorem join_room_name_guard:
  "join_room sid [] stamp s = Inr (s, []) \<and>
   (roomName \<noteq> [] \<and> set roomName \<subseteq> set whitespace_chars \<longrightarrow>
      join_room sid roomName stamp s =
        Inr (s\<lparr>users := (case map_of (users s) sid of
                           None \<Rightarrow> users s
                         | Some u \<Rightarrow> AList.update sid (u\<lparr>user_rooms := insert roomName (user_rooms u)\<rparr>) (users s)),
                rooms := (rooms s)(roomName \<mapsto>
                           (case rooms s roomName of
                              None \<Rightarrow> \<lparr>name = roomName, members = {sid}\<rparr>
                            | Some r \<Rightarrow> r\<lparr>members := insert sid (members r)\<rparr>)),
                adapter := (adapter s)(roomName := insert sid (adapter s roomName))\<rparr>,
             [(InRoom roomName,
               RoomNotification roomName (username_or ''User'' s sid @ '' joined '' @ roomName) stamp)]))"
proof -
  have "rooms_get (rooms s) roomName \<noteq> Inherited"
    if "roomName \<noteq> []" and "set roomName \<subseteq> set whitespace_chars"
    using whitespace_not_inherited [OF that] by (simp add: rooms_get_def split: option.splits)
  then show ?thesis
    using join_room_carried_out [of roomName s sid stamp] by (simp add: join_room_def)
qed

theorem join_room_name_guard_witness:
  "[CHR 0x09, CHR '' ''] \<noteq> [] \<and> set [CHR 0x09, CHR '' ''] \<subseteq> set whitespace_chars \<and>
   join_room ''s2'' [] ''t'' alice_online = Inr (alice_online, []) \<and>
   (case join_room ''s2'' [CHR 0x09, CHR '' ''] ''t'' alice_online of
      Inl err \<Rightarrow> False
    | Inr (s', out) \<Rightarrow>
        rooms s' [CHR 0x09, CHR '' ''] = Some \<lparr>name = [CHR 0x09, CHR '' ''], members = {''s2''}\<rparr> \<and>
        adapter s' [CHR 0x09, CHR '' ''] = {''s2''} \<and>
        users s' = users alice_online \<and>
        out = [(InRoom [CHR 0x09, CHR '' ''],
                RoomNotification [CHR 0x09, CHR '' '']
                  (''User joined '' @ [CHR 0x09, CHR '' '']) ''t'')])"
proof -
  have h: "[CHR 0x09, CHR '' ''] \<noteq> [] \<and> set [CHR 0x09, CHR '' ''] \<subseteq> set whitespace_chars"
    by (simp add: whitespace_chars_def)
  have a: "map_of (users alice_online) ''s2'' = None" "rooms alice_online [CHR 0x09, CHR '' ''] = None"
    "adapter alice_online [CHR 0x09, CHR '' ''] = {}"
    by (simp_all add: alice_online_def)
  show ?thesis
    using h join_room_name_guard [of "''s2''" "''t''" alice_online "[CHR 0x09, CHR '' '']"]
    by (simp add: a username_or_def)
qed

section \<open>Registration\<close>






section \<open>Disconnect\<close>

lemma disconnect_again:
  assumes "map_of (users s) sid = None" and "sid \<notin> fst ` set (typingUsers s)"
    and "\<forall>r. \<not> is_member s sid r"
  shows "disconnect sid s
         = (s, [(Everyone, UserList (map snd (users s))), (Everyone, TypingUsers (map snd (typingUsers s)))])"
proof -
  have u: "AList.delete sid (users s) = users s"
    using assms(1) by (simp add: map_of_eq_None_iff)
  have t: "AList.delete sid (typingUsers s) = typingUsers s"
    using assms(2) by simp
  have "map_option (\<lambda>r. r\<lparr>members := members r - {sid}\<rparr>) (rooms s n) = rooms s n" for n
  proof (cases "rooms s n")
    case None
    then show ?thesis by simp
  next
    case (Some e)
    then have "sid \<notin> members e"
      using assms(3) by (auto simp: is_member_def dest: spec [of _ n])
    then have "members e - {sid} = members e" by blast
    then show ?thesis using Some by simp
  qed
  then have r: "(\<lambda>n. map_option (\<lambda>r. r\<lparr>members := members r - {sid}\<rparr>) (rooms s n)) = rooms s"
    by (simp add: fun_eq_iff)
  show ?thesis
    using assms(1) by (simp add: disconnect_def Let_def u t r)
qed

lemma disconnect_users: "sid \<notin> fst ` set (users (fst (disconnect sid s)))"
  by (simp add: disconnect_def Let_def delete_notin_dom)

lemma disconnect_typing: "sid \<notin> fst ` set (typingUsers (fst (disconnect sid s)))"
  by (simp add: disconnect_def Let_def delete_notin_dom)

lemma disconnect_rooms: "\<not> is_member (fst (disconnect sid s)) sid r"
  by (simp add: disconnect_def Let_def is_member_def split: option.splits)

text \<open>
  C8. After \<^verbatim>\<open>disconnect\<close> the socket has no entry in \<^verbatim>\<open>users\<close>, is in the members of no
  room and has no entry in \<^verbatim>\<open>typingUsers\<close>. A second \<^verbatim>\<open>disconnect\<close> for it leaves the state
  as it is and emits no \<^verbatim>\<open>user_left\<close>: it emits only \<^verbatim>\<open>user_list\<close> and \<^verbatim>\<open>typing_users\<close>.
\<close>

theorem disconnect_twice:
  "sid \<notin> fst ` set (users (fst (disconnect sid s))) \<and>
   (\<forall>r. \<not> is_member (fst (disconnect sid s)) sid r) \<and>
   sid \<notin> fst ` set (typingUsers (fst (disconnect sid s))) \<and>
   fst (disconnect sid (fst (disconnect sid s))) = fst (disconnect sid s) \<and>
   snd (disconnect sid (fst (disconnect sid s)))
     = [(Everyone, UserList (map snd (users (fst (disconnect sid s))))),
        (Everyone, TypingUsers (map snd (typingUsers (fst (disconnect sid s)))))] \<and>
   (\<forall>t uname x. (t, UserLeft uname x) \<notin> set (snd (disconnect sid (fst (disconnect sid s)))))"
proof -
  let ?s1 = "fst (disconnect sid s)"
  have "map_of (users ?s1) sid = None"
    using disconnect_users [of sid s] by (simp add: map_of_eq_None_iff)
  then have "disconnect sid ?s1
             = (?s1, [(Everyone, UserList (map snd (users ?s1))), (Everyone, TypingUsers (map snd (typingUsers ?s1)))])"
    using disconnect_typing [of sid s] disconnect_rooms [of sid s] by (intro disconnect_again) auto
  then show ?thesis
    using disconnect_users [of sid s] disconnect_typing [of sid s] disconnect_rooms [of sid s]
    by simp
qed

theorem disconnect_twice_witness:
  "fst (disconnect ''s1'' alice_typing)
     = \<lparr>users = [], messages = [], typingUsers = [],
        rooms = [''global'' \<mapsto> \<lparr>name = ''global'', members = {}\<rparr>,
                 ''dev'' \<mapsto> \<lparr>name = ''dev'', members = {}\<rparr>],
        sockets = {}, adapter = (\<lambda>r. {})\<rparr> \<and>
   snd (disconnect ''s1'' alice_typing)
     = [(Everyone, UserLeft ''alice'' ''s1''), (Everyone, UserList []), (Everyone, TypingUsers [])] \<and>
   disconnect ''s1'' (fst (disconnect ''s1'' alice_typing))
     = (fst (disconnect ''s1'' alice_typing), [(Everyone, UserList []), (Everyone, TypingUsers [])])"
proof -
  have f: "fst (disconnect ''s1'' alice_typing)
     = \<lparr>users = [], messages = [], typingUsers = [],
        rooms = [''global'' \<mapsto> \<lparr>name = ''global'', members = {}\<rparr>,
                 ''dev'' \<mapsto> \<lparr>name = ''dev'', members = {}\<rparr>],
        sockets = {}, adapter = (\<lambda>r. {})\<rparr>"
    by (simp add: disconnect_def alice_typing_def Let_def fun_eq_iff)
  have e: "snd (disconnect ''s1'' alice_typing)
     = [(Everyone, UserLeft ''alice'' ''s1''), (Everyone, UserList []), (Everyone, TypingUsers [])]"
    by (simp add: disconnect_def alice_typing_def Let_def)
  have "disconnect ''s1'' (fst (disconnect ''s1'' alice_typing))
     = (fst (disconnect ''s1'' alice_typing),
        [(Everyone, UserList (map snd (users (fst (disconnect ''s1'' alice_typing))))),
         (Everyone, TypingUsers (map snd (typingUsers (fst (disconnect ''s1'' alice_typing)))))])"
    using disconnect_twice [of "''s1''" alice_typing] by (simp add: prod_eq_iff)
  moreover have "users (fst (disconnect ''s1'' alice_typing)) = []"
    and "typingUsers (fst (disconnect ''s1'' alice_typing)) = []"
    by (simp_all add: f)
  ultimately show ?thesis
    using f e by simp
qed

section \<open>Room membership and the cached room sets\<close>

lemma rooms_get_Undefined:
  "rooms_get rs n = Undefined \<longleftrightarrow> rs n = None \<and> n \<notin> set object_prototype_keys"
  by (simp add: rooms_get_def split: option.splits)

lemma user_join_views:
  assumes "user_join sid uname s = Inr (s', out)"
  shows "is_member s' c r = (if r = ''global'' then c = sid \<or> is_member s c r else is_member s c r)"
    and "has_joined s' c r = (if c = sid then r = ''global'' else has_joined s c r)"
  using assms
  by (auto simp: user_join_def Let_def is_member_def has_joined_def update_conv' split: option.splits)

lemma join_room_views:
  assumes "join_room sid roomName stamp s = Inr (s', out)"
  shows "is_member s' c r = (if r = roomName \<and> roomName \<noteq> [] then c = sid \<or> is_member s c r else is_member s c r)"
    and "has_joined s' c r =
           (if c = sid \<and> r = roomName \<and> roomName \<noteq> [] then map_of (users s) sid \<noteq> None else has_joined s c r)"
  using assms
  by (auto simp: join_room_def Let_def is_member_def has_joined_def update_conv' rooms_get_Undefined
      split: option.splits if_splits)


lemma leave_room_views:
  assumes "leave_room sid roomName stamp s = Inr (s', out)"
  shows "is_member s' c r = (is_member s c r \<and> \<not> (c = sid \<and> r = roomName \<and> roomName \<noteq> []))"
    and "has_joined s' c r = (has_joined s c r \<and> \<not> (c = sid \<and> r = roomName \<and> roomName \<noteq> [] \<and> rooms s roomName \<noteq> None))"
  using assms
  by (auto simp: leave_room_def Let_def is_member_def has_joined_def update_conv' rooms_get_Undefined
      split: option.splits if_splits)

lemma disconnect_views:
  shows "is_member (fst (disconnect sid s)) c r = (is_member s c r \<and> c \<noteq> sid)"
    and "has_joined (fst (disconnect sid s)) c r = (has_joined s c r \<and> c \<noteq> sid)"
  by (auto simp: disconnect_def Let_def is_member_def has_joined_def delete_conv' update_conv' split: option.splits)

lemma is_member_room: "is_member s c r \<Longrightarrow> rooms s r \<noteq> None"
  by (cases "rooms s r") (auto simp: is_member_def)


lemma step_frame:
  assumes "step e s = Inr (s', out)"
  shows "e = Ev_connection sid \<Longrightarrow> users s' = users s \<and> rooms s' = rooms s"
    and "e = Ev_send_message sid md has_ack now stamp \<Longrightarrow> users s' = users s \<and> rooms s' = rooms s"
    and "e = Ev_typing sid isTyping \<Longrightarrow> users s' = users s \<and> rooms s' = rooms s"
    and "e = Ev_private_message sid pm has_ack now stamp \<Longrightarrow> users s' = users s \<and> rooms s' = rooms s"
    and "e = Ev_message_read sid payload \<Longrightarrow> users s' = users s \<and> rooms s' = rooms s"
proof -
  show "e = Ev_connection sid \<Longrightarrow> users s' = users s \<and> rooms s' = rooms s"
    using assms by (auto simp: socket_open_def)
  show "e = Ev_send_message sid md has_ack now stamp \<Longrightarrow> users s' = users s \<and> rooms s' = rooms s"
    using assms by (auto simp: send_message_def Let_def)
  show "e = Ev_typing sid isTyping \<Longrightarrow> users s' = users s \<and> rooms s' = rooms s"
    using assms by (auto simp: typing_def Let_def split: option.splits)
  show "e = Ev_private_message sid pm has_ack now stamp \<Longrightarrow> users s' = users s \<and> rooms s' = rooms s"
    using assms by (auto simp: private_message_def Let_def split: option.splits)
  show "e = Ev_message_read sid payload \<Longrightarrow> users s' = users s \<and> rooms s' = rooms s"
    using assms by (auto simp: message_read_def split: option.splits)
qed










lemma run_alice_joins_dev: "run alice_joins_dev initial = Inr alice_in_dev"
  by (auto simp: alice_joins_dev_def alice_in_dev_def user_join_def join_room_def leave_room_def
      rooms_get_def object_prototype_keys_def socket_open_def socket_join_def socket_leave_def
      initial_def Let_def username_or_def fun_eq_iff)


section \<open>Who receives a message\<close>

lemma send_message_receivers:
  "message_receivers s (snd (send_message sid md has_ack now stamp s))
   = recipients s (message_target s (new_message sid md now stamp s))"
  by (simp add: message_receivers_def send_message_def Let_def)

lemma room_new_message: "room (new_message sid md now stamp s) \<noteq> []"
  by (simp add: new_message_def split: option.splits)

lemma user_join_transport:
  assumes "user_join sid uname s = Inr (s', out)"
  shows "adapter s' = socket_join sid ''global'' (adapter s)" and "sockets s' = sockets s"
  using assms by (auto simp: user_join_def Let_def split: option.splits)

lemma join_room_transport:
  assumes "join_room sid roomName stamp s = Inr (s', out)"
  shows "adapter s' = (if roomName = [] then adapter s else socket_join sid roomName (adapter s))"
    and "sockets s' = sockets s"
  using assms by (auto simp: join_room_def Let_def split: option.splits if_splits)

lemma leave_room_transport:
  assumes "leave_room sid roomName stamp s = Inr (s', out)"
  shows "adapter s' = (if roomName = [] \<or> rooms s roomName = None then adapter s
                       else socket_leave sid roomName (adapter s))"
    and "sockets s' = sockets s"
  using assms
  by (auto simp: leave_room_def Let_def rooms_get_Undefined split: option.splits if_splits)

lemma adapter_tracks_frame:
  "users s' = users s \<Longrightarrow> rooms s' = rooms s \<Longrightarrow> adapter s' = adapter s \<Longrightarrow> sockets s' = sockets s
   \<Longrightarrow> adapter_tracks s \<Longrightarrow> adapter_tracks s'"
  by (simp add: adapter_tracks_def is_member_def)

lemma step_transport_frame:
  assumes "step e s = Inr (s', out)"
  shows "e = Ev_send_message sid md has_ack now stamp \<Longrightarrow> adapter s' = adapter s \<and> sockets s' = sockets s"
    and "e = Ev_typing sid isTyping \<Longrightarrow> adapter s' = adapter s \<and> sockets s' = sockets s"
    and "e = Ev_private_message sid pm has_ack now stamp \<Longrightarrow> adapter s' = adapter s \<and> sockets s' = sockets s"
    and "e = Ev_message_read sid payload \<Longrightarrow> adapter s' = adapter s \<and> sockets s' = sockets s"
proof -
  show "e = Ev_send_message sid md has_ack now stamp \<Longrightarrow> adapter s' = adapter s \<and> sockets s' = sockets s"
    using assms by (auto simp: send_message_def Let_def)
  show "e = Ev_typing sid isTyping \<Longrightarrow> adapter s' = adapter s \<and> sockets s' = sockets s"
    using assms by (auto simp: typing_def Let_def split: option.splits)
  show "e = Ev_private_message sid pm has_ack now stamp \<Longrightarrow> adapter s' = adapter s \<and> sockets s' = sockets s"
    using assms by (auto simp: private_message_def Let_def split: option.splits)
  show "e = Ev_message_read sid payload \<Longrightarrow> adapter s' = adapter s \<and> sockets s' = sockets s"
    using assms by (auto simp: message_read_def split: option.splits)
qed

lemma step_adapter_tracks:
  assumes "adapter_tracks s" and "step e s = Inr (s', out)"
  shows "adapter_tracks s'"
proof (cases e)
  case (Ev_connection sid)
  with assms(2) have s': "s' = socket_open sid s" by simp
  have v: "is_member (socket_open sid s) c r = is_member s c r" for c r
    by (simp add: is_member_def socket_open_def)
  show ?thesis
    using assms(1) unfolding s' adapter_tracks_def v
    by (auto simp: socket_open_def socket_join_def)
next
  case (Ev_user_join sid uname)
  with assms(2) have j: "user_join sid uname s = Inr (s', out)" by simp
  show ?thesis
    using assms(1) unfolding adapter_tracks_def
    by (auto simp: user_join_views(1) [OF j] user_join_transport [OF j] socket_join_def)
next
  case (Ev_join_room sid roomName stamp)
  with assms(2) have j: "join_room sid roomName stamp s = Inr (s', out)" by simp
  show ?thesis
    using assms(1) unfolding adapter_tracks_def
    by (auto simp: join_room_views(1) [OF j] join_room_transport [OF j] socket_join_def)
next
  case (Ev_leave_room sid roomName stamp)
  with assms(2) have l: "leave_room sid roomName stamp s = Inr (s', out)" by simp
  show ?thesis
    using assms(1) unfolding adapter_tracks_def
    by (auto simp: leave_room_views(1) [OF l] leave_room_transport [OF l] socket_leave_def
        dest: is_member_room)
next
  case (Ev_disconnect sid)
  have v: "is_member (socket_close sid s) c r = is_member s c r" for c r
    by (simp add: is_member_def socket_close_def)
  have t: "adapter (fst (disconnect sid (socket_close sid s))) r = adapter s r - {sid}"
          "sockets (fst (disconnect sid (socket_close sid s))) = sockets s - {sid}" for r
    by (simp_all add: disconnect_def Let_def socket_close_def)
  from assms(2) Ev_disconnect have s': "s' = fst (disconnect sid (socket_close sid s))" by simp
  show ?thesis
    using assms(1) unfolding adapter_tracks_def s'
    by (auto simp: disconnect_views(1) v t)
next
  case (Ev_send_message sid md has_ack now stamp)
  from step_frame(2) [OF assms(2) this] step_transport_frame(1) [OF assms(2) this] show ?thesis
    using assms(1) by (simp add: adapter_tracks_frame)
next
  case (Ev_typing sid isTyping)
  from step_frame(3) [OF assms(2) this] step_transport_frame(2) [OF assms(2) this] show ?thesis
    using assms(1) by (simp add: adapter_tracks_frame)
next
  case (Ev_private_message sid pm has_ack now stamp)
  from step_frame(4) [OF assms(2) this] step_transport_frame(3) [OF assms(2) this] show ?thesis
    using assms(1) by (simp add: adapter_tracks_frame)
next
  case (Ev_message_read sid payload)
  from step_frame(5) [OF assms(2) this] step_transport_frame(4) [OF assms(2) this] show ?thesis
    using assms(1) by (simp add: adapter_tracks_frame)
qed

lemma run_adapter_tracks:
  "adapter_tracks s \<Longrightarrow> run evs s = Inr t \<Longrightarrow> adapter_tracks t"
proof (induction evs arbitrary: s)
  case Nil
  then show ?case by simp
next
  case (Cons e es)
  from Cons.prems(2) obtain s' out where st: "step e s = Inr (s', out)" and r: "run es s' = Inr t"
    by (auto split: sum.splits)
  from step_adapter_tracks [OF Cons.prems(1) st] have "adapter_tracks s'" .
  then show ?case using Cons.IH r by blast
qed

lemma initial_adapter_tracks: "adapter_tracks initial"
  by (simp add: adapter_tracks_def is_member_def initial_def)

text \<open>
  C5, as stated, fails on both sides. A room of the directory named like the id of a
  connected socket is delivered to that socket too, though it is not a member: the emit
  goes to the Socket.IO room of that name, which is the socket's own room. And a name that
  \<^verbatim>\<open>rooms\<close> only inherits from \<^verbatim>\<open>Object.prototype\<close>, such as \<^verbatim>\<open>toString\<close>, is absent from the
  directory but still passes \<^verbatim>\<open>rooms[message.room]\<close>: the message goes to a Socket.IO room
  without sockets instead of to everyone.
\<close>

theorem send_message_routing_counterexample:
  "(case run [Ev_connection ''s1'', Ev_connection ''s2'', Ev_join_room ''s2'' ''s1'' ''t''] initial of
      Inl err \<Rightarrow> False
    | Inr s \<Rightarrow>
        rooms s ''s1'' = Some \<lparr>name = ''s1'', members = {''s2''}\<rparr> \<and>
        message_receivers s
          (snd (send_message ''s2'' \<lparr>md_message = ''hi'', md_room = Some ''s1''\<rparr> False 1 ''t'' s))
          = {''s1'', ''s2''}) \<and>
   (case run [Ev_connection ''s1''] initial of
      Inl err \<Rightarrow> False
    | Inr s \<Rightarrow>
        rooms s ''toString'' = None \<and> sockets s = {''s1''} \<and>
        message_receivers s
          (snd (send_message ''s1'' \<lparr>md_message = ''hi'', md_room = Some ''toString''\<rparr> False 1 ''t'' s))
          = {})"
  by (auto simp: join_room_def rooms_get_def object_prototype_keys_def socket_open_def socket_join_def
      initial_def Let_def username_or_def send_message_receivers message_target_def new_message_def)

text \<open>
  C5, amended. In every state the server reaches, a \<^verbatim>\<open>send_message\<close> whose room (after the
  default \<^verbatim>\<open>global\<close>) has an entry in \<^verbatim>\<open>rooms\<close> is delivered to the Socket.IO room of that
  name: to every member of the entry, and to nobody else except possibly the connected
  socket whose id is the room's name. A \<^verbatim>\<open>send_message\<close> whose room has no entry and is not a
  property name of \<^verbatim>\<open>Object.prototype\<close> is delivered to all connected sockets.
\<close>

theorem send_message_routing:
  assumes "run evs initial = Inr s"
  shows "(let r = room (new_message sid md now stamp s);
              delivered = message_receivers s (snd (send_message sid md has_ack now stamp s))
          in (\<forall>e. rooms s r = Some e \<longrightarrow>
                delivered = adapter s r \<and> members e \<subseteq> delivered \<and>
                delivered \<subseteq> members e \<union> ({r} \<inter> sockets s)) \<and>
             (rooms s r = None \<and> r \<notin> set object_prototype_keys \<longrightarrow> delivered = sockets s))"
proof -
  let ?r = "room (new_message sid md now stamp s)"
  have tr: "adapter_tracks s"
    using run_adapter_tracks [OF initial_adapter_tracks assms] .
  have ne: "?r \<noteq> []" by (rule room_new_message)
  have a: "recipients s (message_target s (new_message sid md now stamp s)) = adapter s ?r"
    if "rooms s ?r = Some e" for e
    using that ne by (simp add: message_target_def rooms_get_def)
  have b: "members e \<subseteq> adapter s ?r \<and> adapter s ?r \<subseteq> members e \<union> ({?r} \<inter> sockets s)"
    if h: "rooms s ?r = Some e" for e
  proof -
    have m: "is_member s c ?r \<longleftrightarrow> c \<in> members e" for c
      using h by (simp add: is_member_def)
    have "c \<in> members e \<Longrightarrow> c \<in> adapter s ?r" for c
      using tr m [of c] unfolding adapter_tracks_def by blast
    moreover have "c \<in> adapter s ?r \<Longrightarrow> c \<in> members e \<or> (c = ?r \<and> ?r \<in> sockets s)" for c
      using tr m [of c] unfolding adapter_tracks_def by blast
    ultimately show ?thesis by blast
  qed
  have c: "recipients s (message_target s (new_message sid md now stamp s)) = sockets s"
    if "rooms s ?r = None" and "?r \<notin> set object_prototype_keys"
    using that by (simp add: message_target_def rooms_get_def)
  show ?thesis
    using a b c by (simp add: Let_def send_message_receivers)
qed

theorem send_message_routing_witness:
  "run alice_joins_dev initial = Inr alice_in_dev \<and>
   rooms alice_in_dev ''dev'' = Some \<lparr>name = ''dev'', members = {''s1''}\<rparr> \<and>
   message_receivers alice_in_dev
     (snd (send_message ''s1'' \<lparr>md_message = ''hi'', md_room = Some ''dev''\<rparr> False 1 ''t'' alice_in_dev))
     = {''s1''} \<and>
   rooms alice_in_dev ''ghost'' = None \<and> ''ghost'' \<notin> set object_prototype_keys \<and>
   message_receivers alice_in_dev
     (snd (send_message ''s1'' \<lparr>md_message = ''hi'', md_room = Some ''ghost''\<rparr> False 1 ''t'' alice_in_dev))
     = sockets alice_in_dev"
proof -
  have d: "room (new_message ''s1'' \<lparr>md_message = ''hi'', md_room = Some ''dev''\<rparr> 1 ''t'' alice_in_dev) = ''dev''"
    and g: "room (new_message ''s1'' \<lparr>md_message = ''hi'', md_room = Some ''ghost''\<rparr> 1 ''t'' alice_in_dev) = ''ghost''"
    by (simp_all add: new_message_def)
  have rd: "rooms alice_in_dev ''dev'' = Some \<lparr>name = ''dev'', members = {''s1''}\<rparr>"
    and rg: "rooms alice_in_dev ''ghost'' = None"
    and sk: "sockets alice_in_dev = {''s1''}"
    by (simp_all add: alice_in_dev_def)
  have pk: "''ghost'' \<notin> set object_prototype_keys"
    by (simp add: object_prototype_keys_def)
  have "message_receivers alice_in_dev
     (snd (send_message ''s1'' \<lparr>md_message = ''hi'', md_room = Some ''dev''\<rparr> False 1 ''t'' alice_in_dev))
     = {''s1''}"
    using send_message_routing [OF run_alice_joins_dev, of "''s1''" "\<lparr>md_message = ''hi'', md_room = Some ''dev''\<rparr>" 1 "''t''" False]
    by (auto simp: Let_def d rd sk)
  moreover have "message_receivers alice_in_dev
     (snd (send_message ''s1'' \<lparr>md_message = ''hi'', md_room = Some ''ghost''\<rparr> False 1 ''t'' alice_in_dev))
     = sockets alice_in_dev"
    using send_message_routing [OF run_alice_joins_dev, of "''s1''" "\<lparr>md_message = ''hi'', md_room = Some ''ghost''\<rparr>" 1 "''t''" False]
    by (simp add: Let_def g rg pk)
  ultimately show ?thesis
    using run_alice_joins_dev rd rg pk by simp
qed

section \<open>Unregistered senders\<close>

text \<open>
  C10. A \<^verbatim>\<open>send_message\<close> from a socket without an entry in \<^verbatim>\<open>users\<close> is not rejected. The
  log keeps what it held (less the oldest message when it was full) and gets the new message
  at its end, with sender \<^verbatim>\<open>Anonymous\<close>; nothing else of the state changes. After the optional
  acknowledgement, the message is emitted once as \<^verbatim>\<open>receive_message\<close> with sender
  \<^verbatim>\<open>Anonymous\<close>: it reaches the Socket.IO room of its room name when \<^verbatim>\<open>rooms[room]\<close> is
  truthy, and every connected socket otherwise.
\<close>

theorem send_unregistered_anonymous:
  assumes "map_of (users s) sid = None"
  shows "(let r = (case md_room md of None \<Rightarrow> ''global'' | Some x \<Rightarrow> if x = [] then ''global'' else x);
              m = \<lparr>message = md_message md, msg_id = now, sender = ''Anonymous'', senderId = sid,
                   timestamp = stamp, room = r, deliveredTo = {}, readBy = {}\<rparr>;
              routed = (rooms s r \<noteq> None \<or> r \<in> set object_prototype_keys)
          in send_message sid md has_ack now stamp s =
               (s\<lparr>messages := (if 100 \<le> length (messages s) then tl (messages s) else messages s) @ [m]\<rparr>,
                (if has_ack then [(AckTo sid, Ack now)] else []) @
                [(if routed then InRoom r else Everyone,
                  ReceiveMessage \<lparr>w_message = md_message md, w_id = now, w_sender = ''Anonymous'',
                                  w_senderId = sid, w_timestamp = stamp, w_room = r\<rparr>)]) \<and>
             message_receivers s (snd (send_message sid md has_ack now stamp s))
               = (if routed then adapter s r else sockets s))"
proof -
  let ?r = "case md_room md of None \<Rightarrow> ''global'' | Some x \<Rightarrow> if x = [] then ''global'' else x"
  let ?m = "\<lparr>message = md_message md, msg_id = now, sender = ''Anonymous'', senderId = sid,
             timestamp = stamp, room = ?r, deliveredTo = {}, readBy = {}\<rparr>"
  have m: "new_message sid md now stamp s = ?m"
    using assms by (simp add: new_message_def username_or_def)
  have ne: "?r \<noteq> []"
    by (simp split: option.splits)
  have t: "message_target s ?m
           = (if rooms s ?r \<noteq> None \<or> ?r \<in> set object_prototype_keys then InRoom ?r else Everyone)"
    using ne by (simp add: message_target_def rooms_get_def split: option.splits)
  have p: "payload_of ?m = \<lparr>w_message = md_message md, w_id = now, w_sender = ''Anonymous'',
                             w_senderId = sid, w_timestamp = stamp, w_room = ?r\<rparr>"
    by (simp add: payload_of_def)
  have s: "send_message sid md has_ack now stamp s =
             (s\<lparr>messages := (if 100 \<le> length (messages s) then tl (messages s) else messages s) @ [?m]\<rparr>,
              (if has_ack then [(AckTo sid, Ack now)] else []) @
              [(message_target s ?m, ReceiveMessage (payload_of ?m))])"
    unfolding send_message_def m Let_def push_bounded_eq by simp
  have r: "message_receivers s (snd (send_message sid md has_ack now stamp s))
           = recipients s (message_target s ?m)"
    by (simp only: send_message_receivers m)
  have c1: "send_message sid md has_ack now stamp s =
             (s\<lparr>messages := (if 100 \<le> length (messages s) then tl (messages s) else messages s) @ [?m]\<rparr>,
              (if has_ack then [(AckTo sid, Ack now)] else []) @
              [(if rooms s ?r \<noteq> None \<or> ?r \<in> set object_prototype_keys then InRoom ?r else Everyone,
                ReceiveMessage \<lparr>w_message = md_message md, w_id = now, w_sender = ''Anonymous'',
                                w_senderId = sid, w_timestamp = stamp, w_room = ?r\<rparr>)])"
    unfolding s t p by (rule refl)
  have c2: "message_receivers s (snd (send_message sid md has_ack now stamp s))
            = (if rooms s ?r \<noteq> None \<or> ?r \<in> set object_prototype_keys then adapter s ?r else sockets s)"
    unfolding r t by simp
  show ?thesis
    unfolding Let_def by (intro conjI c1 c2)
qed

theorem send_unregistered_anonymous_witness:
  "map_of (users alice_spoke) ''s2'' = None \<and>
   messages (fst (send_message ''s2'' \<lparr>md_message = ''hi'', md_room = None\<rparr> True 5 ''u'' alice_spoke))
     = [\<lparr>message = ''hello'', msg_id = 3, sender = ''alice'', senderId = ''s1'', timestamp = ''t'',
         room = ''global'', deliveredTo = {}, readBy = {}\<rparr>,
        \<lparr>message = ''hi'', msg_id = 5, sender = ''Anonymous'', senderId = ''s2'', timestamp = ''u'',
         room = ''global'', deliveredTo = {}, readBy = {}\<rparr>] \<and>
   snd (send_message ''s2'' \<lparr>md_message = ''hi'', md_room = None\<rparr> True 5 ''u'' alice_spoke)
     = [(AckTo ''s2'', Ack 5),
        (InRoom ''global'',
         ReceiveMessage \<lparr>w_message = ''hi'', w_id = 5, w_sender = ''Anonymous'', w_senderId = ''s2'',
                         w_timestamp = ''u'', w_room = ''global''\<rparr>)] \<and>
   message_receivers alice_spoke
     (snd (send_message ''s2'' \<lparr>md_message = ''hi'', md_room = None\<rparr> True 5 ''u'' alice_spoke))
     = {''s1''} \<and>
   message_receivers alice_spoke
     (snd (send_message ''s2'' \<lparr>md_message = ''hi'', md_room = Some ''ghost''\<rparr> True 5 ''u'' alice_spoke))
     = {''s2'', ''s1''}"
proof -
  have h: "map_of (users alice_spoke) ''s2'' = None"
    by (simp add: alice_spoke_def send_message_def Let_def alice_online_def)
  have a: "messages alice_spoke
           = [\<lparr>message = ''hello'', msg_id = 3, sender = ''alice'', senderId = ''s1'', timestamp = ''t'',
               room = ''global'', deliveredTo = {}, readBy = {}\<rparr>]"
    "rooms alice_spoke ''global'' \<noteq> None" "rooms alice_spoke ''ghost'' = None"
    "adapter alice_spoke ''global'' = {''s1''}" "sockets alice_spoke = {''s2'', ''s1''}"
    by (simp_all add: alice_spoke_def send_message_def Let_def alice_online_def new_message_def
        username_or_def push_bounded_def)
  have k: "''ghost'' \<notin> set object_prototype_keys"
    by (simp add: object_prototype_keys_def)
  note t1 = send_unregistered_anonymous
      [OF h, of "\<lparr>md_message = ''hi'', md_room = None\<rparr>" 5 "''u''" True, unfolded Let_def]
  note t2 = send_unregistered_anonymous
      [OF h, of "\<lparr>md_message = ''hi'', md_room = Some ''ghost''\<rparr>" 5 "''u''" True, unfolded Let_def]
  have g1: "message_receivers alice_spoke
     (snd (send_message ''s2'' \<lparr>md_message = ''hi'', md_room = None\<rparr> True 5 ''u'' alice_spoke))
     = {''s1''}"
    using t1 [THEN conjunct2] by (simp add: a)
  have g2: "message_receivers alice_spoke
     (snd (send_message ''s2'' \<lparr>md_message = ''hi'', md_room = Some ''ghost''\<rparr> True 5 ''u'' alice_spoke))
     = {''s2'', ''s1''}"
    using t2 [THEN conjunct2] by (simp add: a k)
  have f: "send_message ''s2'' \<lparr>md_message = ''hi'', md_room = None\<rparr> True 5 ''u'' alice_spoke
     = (alice_spoke\<lparr>messages :=
          [\<lparr>message = ''hello'', msg_id = 3, sender = ''alice'', senderId = ''s1'', timestamp = ''t'',
            room = ''global'', deliveredTo = {}, readBy = {}\<rparr>,
           \<lparr>message = ''hi'', msg_id = 5, sender = ''Anonymous'', senderId = ''s2'', timestamp = ''u'',
            room = ''global'', deliveredTo = {}, readBy = {}\<rparr>]\<rparr>,
        [(AckTo ''s2'', Ack 5),
         (InRoom ''global'',
          ReceiveMessage \<lparr>w_message = ''hi'', w_id = 5, w_sender = ''Anonymous'', w_senderId = ''s2'',
                          w_timestamp = ''u'', w_room = ''global''\<rparr>)])"
    using t1 [THEN conjunct1] by (simp add: a)
  have m: "messages (fst (send_message ''s2'' \<lparr>md_message = ''hi'', md_room = None\<rparr> True 5 ''u'' alice_spoke))
     = [\<lparr>message = ''hello'', msg_id = 3, sender = ''alice'', senderId = ''s1'', timestamp = ''t'',
         room = ''global'', deliveredTo = {}, readBy = {}\<rparr>,
        \<lparr>message = ''hi'', msg_id = 5, sender = ''Anonymous'', senderId = ''s2'', timestamp = ''u'',
         room = ''global'', deliveredTo = {}, readBy = {}\<rparr>]"
    and e: "snd (send_message ''s2'' \<lparr>md_message = ''hi'', md_room = None\<rparr> True 5 ''u'' alice_spoke)
     = [(AckTo ''s2'', Ack 5),
        (InRoom ''global'',
         ReceiveMessage \<lparr>w_message = ''hi'', w_id = 5, w_sender = ''Anonymous'', w_senderId = ''s2'',
                         w_timestamp = ''u'', w_room = ''global''\<rparr>)]"
    by (simp_all add: f)
  show ?thesis
    by (intro conjI h m e g1 g2)
qed

end
